theory Spec2Isabelle
  imports Complex_Main
begin

section \<open>Invaders From Space, Stage 3: game objects\<close>

text \<open>
  A shallow embedding of \<^verbatim>\<open>src/stages/Stage 3/objects.py\<close>: the classes
  \<^verbatim>\<open>GameObject\<close>, \<^verbatim>\<open>Bullet\<close> and \<^verbatim>\<open>Player\<close>.

  Conventions of the embedding.
  \<^item> Python numbers are HOL reals: coordinates, sizes, speeds and times are exact, so
    \<^verbatim>\<open>0.2\<close> is one fifth and \<^verbatim>\<open>/\<close> is true division (Python 3).
    Rounding of binary floating point is outside the model.
  \<^item> A method that mutates \<^verbatim>\<open>self\<close> takes the object and returns the updated one.
    A method that also reaches the window's bullet list or the pyglet clock takes and
    returns the part of the game state it touches.
  \<^item> The image files are not part of the sources: their pixel sizes are a parameter
    (\<open>assets\<close>) of every definition that reads a class image.
\<close>

subsection \<open>The collaborators: keys, images, sprites\<close>

text \<open>The three keys the player is bound to (\<^verbatim>\<open>pyglet.window.key\<close>).\<close>

datatype key = LEFT | RIGHT | SPACE

text \<open>A loaded image: only its pixel size matters to the game logic.\<close>

record image =
  image_width :: real
  image_height :: real

text \<open>The three files that \<^verbatim>\<open>pyglet.resource.image\<close> loads.\<close>

record assets =
  player_png :: image
  explosion_png :: image
  bullet_png :: image

text \<open>
  Modelled from the spec: the drawable sprite primitive of pyglet, which is not under the
  sources. It is built from an image and a position, has a mutable position and scale
  (the scale of a new sprite is 1) and a read-only width and height, the size of the
  image after scaling.
\<close>

record sprite =
  sprite_image :: image
  sprite_x :: real
  sprite_y :: real
  sprite_scale :: real

definition Sprite :: "image \<Rightarrow> real \<Rightarrow> real \<Rightarrow> sprite" where
  "Sprite img x y = \<lparr>sprite_image = img, sprite_x = x, sprite_y = y, sprite_scale = 1\<rparr>"

definition sprite_width :: "sprite \<Rightarrow> real" where
  "sprite_width s = image_width (sprite_image s) * sprite_scale s"

definition sprite_height :: "sprite \<Rightarrow> real" where
  "sprite_height s = image_height (sprite_image s) * sprite_scale s"

subsection \<open>Classes and class variables\<close>

datatype cls = GameObject | Bullet | Player

text \<open>
  The class variables, as attribute lookup resolves them: \<^verbatim>\<open>Bullet\<close> overrides
  \<^verbatim>\<open>image\<close> and \<^verbatim>\<open>scale\<close>, \<^verbatim>\<open>Player\<close> overrides \<^verbatim>\<open>image\<close>
  (with the same file), and no class overrides \<^verbatim>\<open>explosion_image\<close> or
  \<^verbatim>\<open>explosion_time\<close>.
\<close>

fun image_of :: "assets \<Rightarrow> cls \<Rightarrow> image" where
  "image_of A GameObject = player_png A"
| "image_of A Bullet = bullet_png A"
| "image_of A Player = player_png A"

fun scale_of :: "cls \<Rightarrow> real" where
  "scale_of GameObject = 1"
| "scale_of Bullet = 0.2"
| "scale_of Player = 1"

definition explosion_image :: "assets \<Rightarrow> image" where
  "explosion_image A = explosion_png A"

definition explosion_time :: real where
  "explosion_time = 0.2"

definition Bullet_speed :: real where
  "Bullet_speed = 180"

definition Player_speed :: real where
  "Player_speed = 150"

definition Player_cooldown_time :: real where
  "Player_cooldown_time = 0.5"

definition left_key :: key where "left_key = LEFT"
definition right_key :: key where "right_key = RIGHT"
definition fire_key :: key where "fire_key = SPACE"

subsection \<open>Objects\<close>

text \<open>
  The instance variables. A player is a game object with two more fields; its
  \<^verbatim>\<open>window\<close> field is the game state itself (see \<open>world\<close> below).
\<close>

record game_object =
  sprite :: sprite
  exploded :: bool
  destroyed :: bool

record player = game_object +
  key_handler :: "key \<Rightarrow> bool"
  cooldown :: bool

subsection \<open>The clock and the game state\<close>

text \<open>
  An object of the game is the player or a bullet of the window's list. Bullets are only
  ever appended to that list by the sources, so the position in the list identifies a
  bullet.
\<close>

datatype ref = PlayerRef | BulletRef nat

text \<open>
  The bound methods that the sources hand to \<^verbatim>\<open>pyglet.clock.schedule_once\<close>:
  \<^verbatim>\<open>self.destroy\<close> of any object and \<^verbatim>\<open>self.end_cooldown\<close> of the player.
\<close>

datatype callback = Destroy ref | EndCooldown

text \<open>
  Modelled from the spec: the clock and scheduler of pyglet, which is not under the
  sources. The spec describes a simulation clock that only advances, and one-shot
  callbacks registered with a delay that fire no earlier than that delay later, inline
  in the tick in which the delay has elapsed. The clock is the current simulated time
  and the callbacks not yet fired, each with the time it is due.
\<close>

record clock =
  clock_time :: real
  clock_items :: "(real \<times> callback) list"

definition schedule_once :: "callback \<Rightarrow> real \<Rightarrow> clock \<Rightarrow> clock" where
  "schedule_once func delay clk =
     clk\<lparr>clock_items := clock_items clk @ [(clock_time clk + delay, func)]\<rparr>"

text \<open>
  The state that the methods of the sources reach: the clock, the player, and
  \<^verbatim>\<open>window.bullets\<close>.
\<close>

record world =
  clock :: clock
  player :: player
  bullets :: "game_object list"

subsection \<open>GameObject\<close>

text \<open>
  \<^verbatim>\<open>GameObject.__init__(self, x_pos, y_pos)\<close>. The class of \<^verbatim>\<open>self\<close> decides
  which \<^verbatim>\<open>image\<close> and \<^verbatim>\<open>scale\<close> are read.
\<close>

definition GameObject_init :: "assets \<Rightarrow> cls \<Rightarrow> real \<Rightarrow> real \<Rightarrow> game_object" where
  "GameObject_init A c x_pos y_pos =
     \<lparr>sprite = (Sprite (image_of A c) x_pos y_pos)\<lparr>sprite_scale := scale_of c\<rparr>,
      exploded = False,
      destroyed = False\<rparr>"

text \<open>\<^verbatim>\<open>GameObject.has_hit(self, other_object)\<close>: the two nested tests of the source.\<close>

definition has_hit :: "'a game_object_scheme \<Rightarrow> 'b game_object_scheme \<Rightarrow> bool" where
  "has_hit self other_object =
     (if sprite_x (sprite self) > sprite_x (sprite other_object)
         \<and> sprite_x (sprite self)
             < sprite_x (sprite other_object) + sprite_width (sprite other_object)
      then
        (if sprite_y (sprite self) > sprite_y (sprite other_object)
            \<and> sprite_y (sprite self)
                < sprite_y (sprite other_object) + sprite_height (sprite other_object)
         then True
         else False)
      else False)"

text \<open>
  \<^verbatim>\<open>GameObject.draw(self)\<close> only asks the sprite to render itself; rendering is
  outside the model and no field is assigned.
\<close>

definition draw :: "'a game_object_scheme \<Rightarrow> 'a game_object_scheme" where
  "draw self = self"

text \<open>\<^verbatim>\<open>GameObject.destroy(self, elapsed_time=None)\<close>; the argument is not used.\<close>

definition destroy :: "'a game_object_scheme \<Rightarrow> 'a game_object_scheme" where
  "destroy self = self\<lparr>destroyed := True\<rparr>"

text \<open>
  \<^verbatim>\<open>GameObject.explode(self)\<close>. The new sprite is built from the explosion image at
  the position of the old one; the source does not set its scale. \<open>self_ref\<close> is the
  identity of \<^verbatim>\<open>self\<close>, which the bound method \<^verbatim>\<open>self.destroy\<close> carries.
\<close>

definition explode ::
  "assets \<Rightarrow> ref \<Rightarrow> 'a game_object_scheme \<times> clock \<Rightarrow> 'a game_object_scheme \<times> clock" where
  "explode A self_ref st =
     (let self = fst st; clk = snd st;
          self = self\<lparr>exploded := True\<rparr>;
          self = self\<lparr>sprite := Sprite (explosion_image A)
                                   (sprite_x (sprite self)) (sprite_y (sprite self))\<rparr>;
          clk = schedule_once (Destroy self_ref) explosion_time clk
      in (self, clk))"

subsection \<open>Bullet\<close>

text \<open>\<^verbatim>\<open>Bullet.__init__(self, x_pos)\<close>\<close>

definition Bullet_init :: "assets \<Rightarrow> real \<Rightarrow> game_object" where
  "Bullet_init A x_pos =
     GameObject_init A Bullet x_pos
       (image_height (image_of A Player) + image_height (image_of A Bullet) * scale_of Bullet)"

text \<open>\<^verbatim>\<open>Bullet.update(self, elapsed_time)\<close>\<close>

definition Bullet_update :: "real \<Rightarrow> game_object \<Rightarrow> game_object" where
  "Bullet_update elapsed_time self =
     self\<lparr>sprite := (sprite self)
              \<lparr>sprite_y := sprite_y (sprite self) + Bullet_speed * elapsed_time\<rparr>\<rparr>"

subsection \<open>Player\<close>

text \<open>
  \<^verbatim>\<open>Player.__init__(self, window)\<close>. A new \<^verbatim>\<open>KeyStateHandler\<close> reports every key
  as not held.
\<close>

definition Player_init :: "assets \<Rightarrow> player" where
  "Player_init A =
     (let g = GameObject_init A Player 20 20
      in \<lparr>sprite = sprite g, exploded = exploded g, destroyed = destroyed g,
          key_handler = (\<lambda>k. False), cooldown = False\<rparr>)"

text \<open>\<^verbatim>\<open>Player.move(self, speed, elapsed_time)\<close>\<close>

definition move :: "real \<Rightarrow> real \<Rightarrow> player \<Rightarrow> player" where
  "move speed elapsed_time self =
     self\<lparr>sprite := (sprite self)
              \<lparr>sprite_x := sprite_x (sprite self) + speed * elapsed_time\<rparr>\<rparr>"

text \<open>\<^verbatim>\<open>Player.end_cooldown(self, elapsed_time=None)\<close>; the argument is not used.\<close>

definition end_cooldown :: "player \<Rightarrow> player" where
  "end_cooldown self = self\<lparr>cooldown := False\<rparr>"

text \<open>\<^verbatim>\<open>Player.fire(self)\<close>: appends to \<^verbatim>\<open>self.window.bullets\<close>.\<close>

definition fire :: "assets \<Rightarrow> world \<Rightarrow> world" where
  "fire A w =
     w\<lparr>bullets := bullets w @
         [Bullet_init A (sprite_x (sprite (player w)) + sprite_width (sprite (player w)) / 2)]\<rparr>"

text \<open>
  \<^verbatim>\<open>Player.update(self, elapsed_time=0)\<close>: the \<^verbatim>\<open>if\<close>/\<^verbatim>\<open>elif\<close> on the movement
  keys, then the \<^verbatim>\<open>if\<close> on the fire key and the cooldown.
\<close>

definition Player_update :: "assets \<Rightarrow> real \<Rightarrow> world \<Rightarrow> world" where
  "Player_update A elapsed_time w0 =
     (let w = (if key_handler (player w0) left_key \<and> \<not> key_handler (player w0) right_key
               then w0\<lparr>player := move (- Player_speed) elapsed_time (player w0)\<rparr>
               else if key_handler (player w0) right_key \<and> \<not> key_handler (player w0) left_key
               then w0\<lparr>player := move Player_speed elapsed_time (player w0)\<rparr>
               else w0)
      in if key_handler (player w) fire_key \<and> \<not> cooldown (player w)
         then (let w = fire A w;
                   w = w\<lparr>player := (player w)\<lparr>cooldown := True\<rparr>\<rparr>;
                   w = w\<lparr>clock := schedule_once EndCooldown Player_cooldown_time (clock w)\<rparr>
               in w)
         else w)"

section \<open>The game loop\<close>

text \<open>
  Modelled from the spec: the window of Stage 3 and pyglet's event loop, which are not
  under the sources. What they do to the objects is a sequence of events, in any order:
  the clock ticks, the keyboard changes, the window updates the player or a bullet,
  draws or hit-tests objects, or explodes or destroys one. No event calls
  \<^verbatim>\<open>end_cooldown\<close> directly: the spec has it triggered by the scheduler only.
\<close>

text \<open>The player seen as a plain game object (the fields of the base class).\<close>

definition as_game_object :: "'a game_object_scheme \<Rightarrow> game_object" where
  "as_game_object obj =
     \<lparr>sprite = sprite obj, exploded = exploded obj, destroyed = destroyed obj\<rparr>"

fun obj_at :: "ref \<Rightarrow> world \<Rightarrow> game_object" where
  "obj_at PlayerRef w = as_game_object (player w)"
| "obj_at (BulletRef i) w = bullets w ! i"

text \<open>A reference denotes an object when it is the player or an index of the bullet list.\<close>

fun valid_ref :: "ref \<Rightarrow> world \<Rightarrow> bool" where
  "valid_ref PlayerRef w = True"
| "valid_ref (BulletRef i) w = (i < length (bullets w))"

text \<open>
  Modelled from the spec: the clock calling a bound method that was scheduled. The
  method runs on the object the reference denotes (a reference to no object cannot
  arise from the sources; then nothing happens).
\<close>

fun call :: "callback \<Rightarrow> world \<Rightarrow> world" where
  "call (Destroy PlayerRef) w = w\<lparr>player := destroy (player w)\<rparr>"
| "call (Destroy (BulletRef i)) w =
     (if i < length (bullets w)
      then w\<lparr>bullets := (bullets w)[i := destroy (bullets w ! i)]\<rparr>
      else w)"
| "call EndCooldown w = w\<lparr>player := end_cooldown (player w)\<rparr>"

definition is_due :: "real \<Rightarrow> real \<times> callback \<Rightarrow> bool" where
  "is_due now item = (fst item \<le> now)"

text \<open>
  Modelled from the spec: one tick of the clock. Simulated time advances by \<open>dt\<close>; every
  callback whose delay has elapsed is called, once, and is forgotten. The callbacks of
  the sources (\<^verbatim>\<open>destroy\<close>, \<^verbatim>\<open>end_cooldown\<close>) schedule nothing themselves, and
  each only sets one flag, so the order in which the due callbacks run makes no
  difference; they run in the order they were scheduled.
\<close>

definition tick :: "real \<Rightarrow> world \<Rightarrow> world" where
  "tick dt w =
     (let now = clock_time (clock w) + dt;
          due = filter (is_due now) (clock_items (clock w));
          rest = filter (\<lambda>item. \<not> is_due now item) (clock_items (clock w));
          w = w\<lparr>clock := \<lparr>clock_time = now, clock_items = rest\<rparr>\<rparr>
      in fold (\<lambda>item. call (snd item)) due w)"

text \<open>Calling \<^verbatim>\<open>explode\<close>, \<^verbatim>\<open>draw\<close> and \<^verbatim>\<open>has_hit\<close> on objects of the game state.\<close>

fun explode_at :: "assets \<Rightarrow> ref \<Rightarrow> world \<Rightarrow> world" where
  "explode_at A PlayerRef w =
     (let st = explode A PlayerRef (player w, clock w)
      in w\<lparr>player := fst st, clock := snd st\<rparr>)"
| "explode_at A (BulletRef i) w =
     (if i < length (bullets w)
      then (let st = explode A (BulletRef i) (bullets w ! i, clock w)
            in w\<lparr>bullets := (bullets w)[i := fst st], clock := snd st\<rparr>)
      else w)"

fun draw_at :: "ref \<Rightarrow> world \<Rightarrow> world" where
  "draw_at PlayerRef w = w\<lparr>player := draw (player w)\<rparr>"
| "draw_at (BulletRef i) w =
     (if i < length (bullets w)
      then w\<lparr>bullets := (bullets w)[i := draw (bullets w ! i)]\<rparr>
      else w)"

text \<open>
  \<^verbatim>\<open>GameObject.has_hit\<close> called on two objects of the game state, in state-passing
  form: the body of the method again, with every attribute read from the state, and
  each \<^verbatim>\<open>return\<close> giving the answer together with the state the method leaves behind.
  The two references may denote the same object.
\<close>

definition has_hit_at :: "ref \<Rightarrow> ref \<Rightarrow> world \<Rightarrow> bool \<times> world" where
  "has_hit_at self other_object w =
     (if sprite_x (sprite (obj_at self w)) > sprite_x (sprite (obj_at other_object w))
         \<and> sprite_x (sprite (obj_at self w))
             < sprite_x (sprite (obj_at other_object w))
               + sprite_width (sprite (obj_at other_object w))
      then
        (if sprite_y (sprite (obj_at self w)) > sprite_y (sprite (obj_at other_object w))
            \<and> sprite_y (sprite (obj_at self w))
                < sprite_y (sprite (obj_at other_object w))
                  + sprite_height (sprite (obj_at other_object w))
         then (True, w)
         else (False, w))
      else (False, w))"

datatype event =
    Tick real
  | KeyState "key \<Rightarrow> bool"
  | UpdatePlayer real
  | UpdateBullet nat real
  | ExplodeAt ref
  | DestroyAt ref
  | DrawAt ref
  | HasHit ref ref

fun step :: "assets \<Rightarrow> event \<Rightarrow> world \<Rightarrow> world" where
  "step A (Tick dt) w = tick dt w"
| "step A (KeyState kh) w = w\<lparr>player := (player w)\<lparr>key_handler := kh\<rparr>\<rparr>"
| "step A (UpdatePlayer dt) w = Player_update A dt w"
| "step A (UpdateBullet i dt) w =
     (if i < length (bullets w)
      then w\<lparr>bullets := (bullets w)[i := Bullet_update dt (bullets w ! i)]\<rparr>
      else w)"
| "step A (ExplodeAt r) w = explode_at A r w"
| "step A (DestroyAt r) w = call (Destroy r) w"
| "step A (DrawAt r) w = draw_at r w"
| "step A (HasHit a b) w = snd (has_hit_at a b w)"

text \<open>Simulated time does not run backwards: a tick has a non-negative length.\<close>

fun valid_event :: "event \<Rightarrow> bool" where
  "valid_event (Tick dt) = (0 \<le> dt)"
| "valid_event e = True"

fun run :: "assets \<Rightarrow> event list \<Rightarrow> world \<Rightarrow> world" where
  "run A [] w = w"
| "run A (e # es) w = run A es (step A e w)"

text \<open>The game as the window starts it: time 0, nothing scheduled, a new player, no bullets.\<close>

definition init_world :: "assets \<Rightarrow> world" where
  "init_world A =
     \<lparr>clock = \<lparr>clock_time = 0, clock_items = []\<rparr>, player = Player_init A, bullets = []\<rparr>"

text \<open>Image sizes for the worked examples: a player of 40 by 30 pixels.\<close>

definition example_assets :: assets where
  "example_assets =
     \<lparr>player_png = \<lparr>image_width = 40, image_height = 30\<rparr>,
      explosion_png = \<lparr>image_width = 64, image_height = 64\<rparr>,
      bullet_png = \<lparr>image_width = 10, image_height = 50\<rparr>\<rparr>"

section \<open>Invariants of the game loop\<close>

text \<open>
  Every pending \<^verbatim>\<open>end_cooldown\<close> belongs to a player that is cooling down, and all
  of them are due at the same time.
\<close>

definition end_cooldown_unique :: "world \<Rightarrow> bool" where
  "end_cooldown_unique w =
     (\<forall>t. (t, EndCooldown) \<in> set (clock_items (clock w)) \<longrightarrow>
        cooldown (player w)
        \<and> (\<forall>t'. (t', EndCooldown) \<in> set (clock_items (clock w)) \<longrightarrow> t' = t))"

text \<open>
  Until time \<open>D\<close> the player is cooling down, the window holds \<open>n\<close> bullets and no
  \<^verbatim>\<open>end_cooldown\<close> is due before \<open>D\<close>.
\<close>

definition cooling_until :: "real \<Rightarrow> nat \<Rightarrow> world \<Rightarrow> bool" where
  "cooling_until D n w =
     (clock_time (clock w) < D \<longrightarrow>
        cooldown (player w) \<and> length (bullets w) = n
        \<and> (\<forall>t. (t, EndCooldown) \<in> set (clock_items (clock w)) \<longrightarrow> D \<le> t))"

text \<open>
  The object \<open>r\<close> exploded at most \<open>explosion_time\<close> ago: before time \<open>D\<close> it is not
  destroyed and its \<^verbatim>\<open>destroy\<close> is pending for \<open>D\<close> and no earlier; from \<open>D\<close> on it
  is destroyed.
\<close>

definition exploding_until :: "ref \<Rightarrow> real \<Rightarrow> world \<Rightarrow> bool" where
  "exploding_until r D w =
     (valid_ref r w \<and> D - explosion_time \<le> clock_time (clock w)
      \<and> (clock_time (clock w) < D \<longrightarrow>
           \<not> destroyed (obj_at r w)
           \<and> (D, Destroy r) \<in> set (clock_items (clock w))
           \<and> (\<forall>t. (t, Destroy r) \<in> set (clock_items (clock w)) \<longrightarrow> D \<le> t))
      \<and> (D \<le> clock_time (clock w) \<longrightarrow> destroyed (obj_at r w)))"

text \<open>
  A \<^verbatim>\<open>destroy\<close> of the object \<open>r\<close> is on its way: the object is destroyed already, or
  the call is pending for \<open>D\<close> and \<open>D\<close> has not come.
\<close>

definition destroy_scheduled :: "ref \<Rightarrow> real \<Rightarrow> world \<Rightarrow> bool" where
  "destroy_scheduled r D w =
     (valid_ref r w
      \<and> (destroyed (obj_at r w)
          \<or> (D, Destroy r) \<in> set (clock_items (clock w)) \<and> clock_time (clock w) < D))"

section \<open>Properties\<close>

subsection \<open>What each method assigns\<close>

lemma move_simps:
  "sprite_x (sprite (move s t p)) = sprite_x (sprite p) + s * t"
  "sprite_y (sprite (move s t p)) = sprite_y (sprite p)"
  "sprite_image (sprite (move s t p)) = sprite_image (sprite p)"
  "sprite_scale (sprite (move s t p)) = sprite_scale (sprite p)"
  "exploded (move s t p) = exploded p"
  "destroyed (move s t p) = destroyed p"
  "cooldown (move s t p) = cooldown p"
  "key_handler (move s t p) = key_handler p"
  by (simp_all add: move_def)

lemma fire_simps:
  "player (fire A w) = player w"
  "clock (fire A w) = clock w"
  "bullets (fire A w) = bullets w @
     [Bullet_init A (sprite_x (sprite (player w)) + sprite_width (sprite (player w)) / 2)]"
  by (simp_all add: fire_def)

lemma Bullet_init_simps:
  "sprite_x (sprite (Bullet_init A x)) = x"
  "sprite_y (sprite (Bullet_init A x))
     = image_height (player_png A) + image_height (bullet_png A) * 0.2"
  "exploded (Bullet_init A x) = False"
  "destroyed (Bullet_init A x) = False"
  by (simp_all add: Bullet_init_def GameObject_init_def Sprite_def)

lemma Bullet_update_simps:
  "sprite_y (sprite (Bullet_update dt b)) = sprite_y (sprite b) + Bullet_speed * dt"
  "sprite_x (sprite (Bullet_update dt b)) = sprite_x (sprite b)"
  "sprite_image (sprite (Bullet_update dt b)) = sprite_image (sprite b)"
  "sprite_scale (sprite (Bullet_update dt b)) = sprite_scale (sprite b)"
  "exploded (Bullet_update dt b) = exploded b"
  "destroyed (Bullet_update dt b) = destroyed b"
  by (simp_all add: Bullet_update_def)

lemma as_game_object_simps:
  "sprite (as_game_object obj) = sprite obj"
  "exploded (as_game_object obj) = exploded obj"
  "destroyed (as_game_object obj) = destroyed obj"
  by (simp_all add: as_game_object_def)

lemma destroy_simps:
  "destroyed (destroy obj) = True"
  "exploded (destroy obj) = exploded obj"
  "sprite (destroy obj) = sprite obj"
  "cooldown (destroy p) = cooldown p"
  "key_handler (destroy p) = key_handler p"
  by (simp_all add: destroy_def)

lemma end_cooldown_simps:
  "cooldown (end_cooldown p) = False"
  "destroyed (end_cooldown p) = destroyed p"
  "exploded (end_cooldown p) = exploded p"
  "sprite (end_cooldown p) = sprite p"
  "key_handler (end_cooldown p) = key_handler p"
  by (simp_all add: end_cooldown_def)

lemma explode_simps:
  "exploded (fst (explode A r (obj, clk))) = True"
  "destroyed (fst (explode A r (obj, clk))) = destroyed obj"
  "sprite (fst (explode A r (obj, clk)))
     = Sprite (explosion_image A) (sprite_x (sprite obj)) (sprite_y (sprite obj))"
  "cooldown (fst (explode A r (p, clk))) = cooldown p"
  "key_handler (fst (explode A r (p, clk))) = key_handler p"
  "snd (explode A r (obj, clk)) = schedule_once (Destroy r) explosion_time clk"
  by (simp_all add: explode_def Let_def)

lemma has_hit_at_snd: "snd (has_hit_at a b w) = w"
  by (simp add: has_hit_at_def)

lemma has_hit_at_fst: "fst (has_hit_at a b w) = has_hit (obj_at a w) (obj_at b w)"
  by (simp add: has_hit_at_def has_hit_def)

lemma schedule_once_simps:
  "clock_time (schedule_once f d clk) = clock_time clk"
  "clock_items (schedule_once f d clk) = clock_items clk @ [(clock_time clk + d, f)]"
  by (simp_all add: schedule_once_def)

subsection \<open>Hit test\<close>

text \<open>
  C1. \<open>A.has_hit(B)\<close> is true exactly when the anchor of \<open>A\<close> lies strictly inside the
  bounding rectangle of \<open>B\<close>: \<open>B.x < A.x < B.x + B.width\<close> and
  \<open>B.y < A.y < B.y + B.height\<close>. An anchor on the boundary of the rectangle gives false.
\<close>

theorem has_hit_strictly_inside:
  "has_hit a b =
     (sprite_x (sprite b) < sprite_x (sprite a)
      \<and> sprite_x (sprite a) < sprite_x (sprite b) + sprite_width (sprite b)
      \<and> sprite_y (sprite b) < sprite_y (sprite a)
      \<and> sprite_y (sprite a) < sprite_y (sprite b) + sprite_height (sprite b))
   \<and> (sprite_x (sprite a) = sprite_x (sprite b)
        \<or> sprite_x (sprite a) = sprite_x (sprite b) + sprite_width (sprite b)
        \<or> sprite_y (sprite a) = sprite_y (sprite b)
        \<or> sprite_y (sprite a) = sprite_y (sprite b) + sprite_height (sprite b)
      \<longrightarrow> \<not> has_hit a b)"
  by (auto simp: has_hit_def)

text \<open>
  The example of the spec: against a rectangle at the origin of size 10 by 10, the
  anchor (10, 5) lies on the right edge and does not hit; the anchor (5, 5) hits.
\<close>

theorem has_hit_strictly_inside_witness:
  "sprite_x (sprite \<lparr>sprite = Sprite \<lparr>image_width = 10, image_height = 10\<rparr> 10 5,
                     exploded = False, destroyed = False\<rparr>)
     = sprite_x (sprite \<lparr>sprite = Sprite \<lparr>image_width = 10, image_height = 10\<rparr> 0 0,
                         exploded = False, destroyed = False\<rparr>)
       + sprite_width (sprite \<lparr>sprite = Sprite \<lparr>image_width = 10, image_height = 10\<rparr> 0 0,
                         exploded = False, destroyed = False\<rparr>)
   \<and> \<not> has_hit \<lparr>sprite = Sprite \<lparr>image_width = 10, image_height = 10\<rparr> 10 5,
                 exploded = False, destroyed = False\<rparr>
               \<lparr>sprite = Sprite \<lparr>image_width = 10, image_height = 10\<rparr> 0 0,
                 exploded = False, destroyed = False\<rparr>
   \<and> has_hit \<lparr>sprite = Sprite \<lparr>image_width = 10, image_height = 10\<rparr> 5 5,
                 exploded = False, destroyed = False\<rparr>
               \<lparr>sprite = Sprite \<lparr>image_width = 10, image_height = 10\<rparr> 0 0,
                 exploded = False, destroyed = False\<rparr>"
  using has_hit_strictly_inside
          [of "\<lparr>sprite = Sprite \<lparr>image_width = 10, image_height = 10\<rparr> 10 5,
                 exploded = False, destroyed = False\<rparr>"
              "\<lparr>sprite = Sprite \<lparr>image_width = 10, image_height = 10\<rparr> 0 0,
                 exploded = False, destroyed = False\<rparr>"]
        has_hit_strictly_inside
          [of "\<lparr>sprite = Sprite \<lparr>image_width = 10, image_height = 10\<rparr> 5 5,
                 exploded = False, destroyed = False\<rparr>"
              "\<lparr>sprite = Sprite \<lparr>image_width = 10, image_height = 10\<rparr> 0 0,
                 exploded = False, destroyed = False\<rparr>"]
  by (simp add: Sprite_def sprite_width_def sprite_height_def)



subsection \<open>Player movement\<close>

text \<open>
  C4. In a tick of \<open>Player.update\<close>: with both movement keys held \<open>x\<close> is unchanged; with
  only the left key held \<open>x\<close> changes by \<open>- speed * dt\<close>, with only the right key held by
  \<open>+ speed * dt\<close>; the speed is 150. (With neither key held \<open>x\<close> is unchanged as well, and
  \<open>y\<close> never changes.)
\<close>

theorem Player_update_movement:
  "(key_handler (player w) left_key \<and> key_handler (player w) right_key \<longrightarrow>
      sprite_x (sprite (player (Player_update A dt w))) = sprite_x (sprite (player w)))
   \<and> (key_handler (player w) left_key \<and> \<not> key_handler (player w) right_key \<longrightarrow>
      sprite_x (sprite (player (Player_update A dt w)))
        = sprite_x (sprite (player w)) - Player_speed * dt)
   \<and> (key_handler (player w) right_key \<and> \<not> key_handler (player w) left_key \<longrightarrow>
      sprite_x (sprite (player (Player_update A dt w)))
        = sprite_x (sprite (player w)) + Player_speed * dt)
   \<and> (\<not> key_handler (player w) left_key \<and> \<not> key_handler (player w) right_key \<longrightarrow>
      sprite_x (sprite (player (Player_update A dt w))) = sprite_x (sprite (player w)))
   \<and> sprite_y (sprite (player (Player_update A dt w))) = sprite_y (sprite (player w))
   \<and> Player_speed = 150"
  by (simp add: Player_update_def Let_def move_simps fire_simps Player_speed_def)

text \<open>
  A new player stands at \<open>x = 20\<close>. After an update of two seconds it is still there with
  every key held, at \<open>20 - 300\<close> with only the left key and at \<open>20 + 300\<close> with only the
  right key.
\<close>

theorem Player_update_movement_witness:
  "sprite_x (sprite (player (Player_update example_assets 2
      ((init_world example_assets)
         \<lparr>player := (Player_init example_assets)\<lparr>key_handler := (\<lambda>k. True)\<rparr>\<rparr>)))) = 20
   \<and> sprite_x (sprite (player (Player_update example_assets 2
      ((init_world example_assets)
         \<lparr>player := (Player_init example_assets)\<lparr>key_handler := (\<lambda>k. k = LEFT)\<rparr>\<rparr>)))) = - 280
   \<and> sprite_x (sprite (player (Player_update example_assets 2
      ((init_world example_assets)
         \<lparr>player := (Player_init example_assets)\<lparr>key_handler := (\<lambda>k. k = RIGHT)\<rparr>\<rparr>)))) = 320"
  using Player_update_movement [of "(init_world example_assets)
         \<lparr>player := (Player_init example_assets)\<lparr>key_handler := (\<lambda>k. True)\<rparr>\<rparr>" example_assets 2]
    Player_update_movement [of "(init_world example_assets)
         \<lparr>player := (Player_init example_assets)\<lparr>key_handler := (\<lambda>k. k = LEFT)\<rparr>\<rparr>" example_assets 2]
    Player_update_movement [of "(init_world example_assets)
         \<lparr>player := (Player_init example_assets)\<lparr>key_handler := (\<lambda>k. k = RIGHT)\<rparr>\<rparr>" example_assets 2]
  by (simp add: init_world_def Player_init_def GameObject_init_def Sprite_def
      left_key_def right_key_def)

subsection \<open>Firing\<close>

text \<open>
  C5. \<open>fire()\<close> appends exactly one new bullet to the window's bullet list and changes
  nothing else. The bullet starts at \<open>x\<close> = the player's \<open>x\<close> plus half the width of the
  player's sprite (a player at 100 of width 40 gives 120) and at \<open>y\<close> = the height of the
  Player image plus the height of the Bullet image times the Bullet scale.
\<close>

theorem fire_appends_one_bullet:
  "bullets (fire A w) = bullets w @ [last (bullets (fire A w))]
   \<and> length (bullets (fire A w)) = length (bullets w) + 1
   \<and> sprite_x (sprite (last (bullets (fire A w))))
       = sprite_x (sprite (player w)) + sprite_width (sprite (player w)) / 2
   \<and> sprite_y (sprite (last (bullets (fire A w))))
       = image_height (image_of A Player) + image_height (image_of A Bullet) * scale_of Bullet
   \<and> player (fire A w) = player w
   \<and> clock (fire A w) = clock w
   \<and> (sprite_x (sprite (player w)) = 100 \<and> sprite_width (sprite (player w)) = 40 \<longrightarrow>
        sprite_x (sprite (last (bullets (fire A w)))) = 120)"
  by (simp add: fire_simps Bullet_init_simps)

text \<open>A player of width 40 moved to \<open>x = 100\<close> fires a bullet at \<open>x = 120\<close>, \<open>y = 30 + 50 * 0.2\<close>.\<close>

theorem fire_appends_one_bullet_witness:
  "sprite_x (sprite (player ((init_world example_assets)
      \<lparr>player := move 40 2 (Player_init example_assets)\<rparr>))) = 100
   \<and> sprite_width (sprite (player ((init_world example_assets)
      \<lparr>player := move 40 2 (Player_init example_assets)\<rparr>))) = 40
   \<and> sprite_x (sprite (last (bullets (fire example_assets ((init_world example_assets)
      \<lparr>player := move 40 2 (Player_init example_assets)\<rparr>))))) = 120
   \<and> sprite_y (sprite (last (bullets (fire example_assets ((init_world example_assets)
      \<lparr>player := move 40 2 (Player_init example_assets)\<rparr>))))) = 40"
  using fire_appends_one_bullet [of example_assets "(init_world example_assets)
      \<lparr>player := move 40 2 (Player_init example_assets)\<rparr>"]
  by (simp add: init_world_def Player_init_def GameObject_init_def Sprite_def move_def
      sprite_width_def example_assets_def)

text \<open>
  C9. \<open>fire()\<close> appends one bullet, and the \<open>y\<close> coordinate of that bullet is a constant
  of the images: the height of the Player image plus the height of the Bullet image
  times the Bullet scale. It does not depend on the \<open>y\<close> of the firing player: with the
  player put at any height \<open>v\<close> the bullet appears at the same constant, and two shots
  from any two game states appear at the same height. The player is constructed at
  \<open>y = 20\<close>, and \<open>Bullet.__init__\<close> gives every bullet that height whatever its \<open>x\<close>.
\<close>

theorem bullet_spawn_height_constant:
  "bullets (fire A w) = bullets w @ [last (bullets (fire A w))]
   \<and> sprite_y (sprite (last (bullets (fire A w))))
     = image_height (image_of A Player) + image_height (image_of A Bullet) * scale_of Bullet
   \<and> bullets (fire A (w\<lparr>player := (player w)\<lparr>sprite := (sprite (player w))\<lparr>sprite_y := v\<rparr>\<rparr>\<rparr>))
     = bullets w @ [last (bullets (fire A w))]
   \<and> sprite_y (sprite (last (bullets (fire A
        (w\<lparr>player := (player w)\<lparr>sprite := (sprite (player w))\<lparr>sprite_y := v\<rparr>\<rparr>\<rparr>)))))
     = image_height (image_of A Player) + image_height (image_of A Bullet) * scale_of Bullet
   \<and> sprite_y (sprite (last (bullets (fire A w))))
     = sprite_y (sprite (last (bullets (fire A w'))))
   \<and> sprite_y (sprite (Bullet_init A x_pos))
     = image_height (image_of A Player) + image_height (image_of A Bullet) * scale_of Bullet
   \<and> sprite_y (sprite (Player_init A)) = 20
   \<and> sprite_y (sprite (last (bullets (fire A (init_world A)))))
     = image_height (player_png A) + image_height (bullet_png A) * 0.2"
  by (simp add: fire_simps Bullet_init_simps Player_init_def GameObject_init_def Sprite_def
      init_world_def sprite_width_def)

subsection \<open>Bullet motion\<close>

lemma fold_Bullet_update_y:
  "\<forall>dt \<in> set dts. 0 \<le> dt \<Longrightarrow>
     sprite_y (sprite b) \<le> sprite_y (sprite (fold Bullet_update dts b))"
proof (induction dts arbitrary: b)
  case Nil
  show ?case by simp
next
  case (Cons dt dts)
  have "sprite_y (sprite b) \<le> sprite_y (sprite (Bullet_update dt b))"
    using Cons.prems by (simp add: Bullet_update_simps Bullet_speed_def)
  also have "\<dots> \<le> sprite_y (sprite (fold Bullet_update dts (Bullet_update dt b)))"
    using Cons.prems by (intro Cons.IH) simp
  finally show ?case by simp
qed

text \<open>
  C7. \<open>Bullet.update(dt)\<close> changes \<open>y\<close> by exactly \<open>speed * dt\<close>, with speed 180, so one
  second adds 180; over any sequence of updates with elapsed times that are not negative
  \<open>y\<close> never decreases. The update moves nothing horizontally, checks no bounds (it
  neither destroys nor explodes the bullet) and schedules nothing.
\<close>

theorem Bullet_update_ascent:
  "sprite_y (sprite (Bullet_update dt b)) = sprite_y (sprite b) + Bullet_speed * dt
   \<and> Bullet_speed = 180
   \<and> sprite_y (sprite (Bullet_update 1 b)) = sprite_y (sprite b) + 180
   \<and> ((\<forall>d \<in> set dts. 0 \<le> d) \<longrightarrow>
        sprite_y (sprite b) \<le> sprite_y (sprite (fold Bullet_update dts b)))
   \<and> sprite_x (sprite (Bullet_update dt b)) = sprite_x (sprite b)
   \<and> destroyed (Bullet_update dt b) = destroyed b
   \<and> exploded (Bullet_update dt b) = exploded b
   \<and> clock (step A (UpdateBullet i dt) w) = clock w
   \<and> length (bullets (step A (UpdateBullet i dt) w)) = length (bullets w)"
  using fold_Bullet_update_y [of dts b]
  by (simp add: Bullet_update_simps Bullet_speed_def)

text \<open>A bullet spawned at \<open>y = 40\<close> is at 220 after one second, and three updates do not lower it.\<close>

theorem Bullet_update_ascent_witness:
  "(0::real) \<le> 1 \<and> (0::real) \<le> 0 \<and> (0::real) \<le> 0.5
   \<and> sprite_y (sprite (Bullet_init example_assets 40)) = 40
   \<and> sprite_y (sprite (Bullet_update 1 (Bullet_init example_assets 40))) = 220
   \<and> sprite_y (sprite (Bullet_init example_assets 40))
       \<le> sprite_y (sprite (fold Bullet_update [1, 0, 0.5] (Bullet_init example_assets 40)))"
  using Bullet_update_ascent [of 1 "Bullet_init example_assets 40" "[1, 0, 0.5]"]
  by (simp add: Bullet_init_simps example_assets_def)

subsection \<open>Frame lemmas of the game loop\<close>

paragraph \<open>Calling a scheduled method\<close>

lemma call_frame:
  "clock (call cb w) = clock w"
  "length (bullets (call cb w)) = length (bullets w)"
  "key_handler (player (call cb w)) = key_handler (player w)"
  "valid_ref r (call cb w) = valid_ref r w"
  by (cases "(cb, w)" rule: call.cases; cases r; simp add: destroy_simps end_cooldown_simps)+

lemma call_cooldown:
  "cooldown (player (call cb w)) = (cb \<noteq> EndCooldown \<and> cooldown (player w))"
  by (cases "(cb, w)" rule: call.cases) (simp_all add: destroy_simps end_cooldown_simps)

lemma call_destroyed:
  "valid_ref r w \<Longrightarrow>
     destroyed (obj_at r (call cb w)) = (cb = Destroy r \<or> destroyed (obj_at r w))"
  by (cases "(cb, w)" rule: call.cases; cases r)
     (auto simp: as_game_object_simps destroy_simps end_cooldown_simps nth_list_update)

lemma call_exploded:
  "valid_ref r w \<Longrightarrow> exploded (obj_at r (call cb w)) = exploded (obj_at r w)"
  by (cases "(cb, w)" rule: call.cases; cases r)
     (auto simp: as_game_object_simps destroy_simps end_cooldown_simps nth_list_update)

lemma call_sprite:
  "valid_ref r w \<Longrightarrow> sprite (obj_at r (call cb w)) = sprite (obj_at r w)"
  by (cases "(cb, w)" rule: call.cases; cases r)
     (auto simp: as_game_object_simps destroy_simps end_cooldown_simps nth_list_update)

paragraph \<open>Calling all the methods that are due\<close>

lemma fold_call_frame:
  "clock (fold (\<lambda>item. call (snd item)) xs w) = clock w"
  "length (bullets (fold (\<lambda>item. call (snd item)) xs w)) = length (bullets w)"
  "key_handler (player (fold (\<lambda>item. call (snd item)) xs w)) = key_handler (player w)"
  "valid_ref r (fold (\<lambda>item. call (snd item)) xs w) = valid_ref r w"
  by (induction xs arbitrary: w; simp add: call_frame)+

lemma fold_call_cooldown:
  "cooldown (player (fold (\<lambda>item. call (snd item)) xs w))
     = (EndCooldown \<notin> snd ` set xs \<and> cooldown (player w))"
  by (induction xs arbitrary: w) (auto simp: call_cooldown)

lemma fold_call_destroyed:
  "valid_ref r w \<Longrightarrow>
     destroyed (obj_at r (fold (\<lambda>item. call (snd item)) xs w))
       = (Destroy r \<in> snd ` set xs \<or> destroyed (obj_at r w))"
  by (induction xs arbitrary: w) (auto simp: call_destroyed call_frame)

lemma fold_call_exploded:
  "valid_ref r w \<Longrightarrow>
     exploded (obj_at r (fold (\<lambda>item. call (snd item)) xs w)) = exploded (obj_at r w)"
  by (induction xs arbitrary: w) (auto simp: call_exploded call_frame)

lemma fold_call_sprite:
  "valid_ref r w \<Longrightarrow>
     sprite (obj_at r (fold (\<lambda>item. call (snd item)) xs w)) = sprite (obj_at r w)"
  by (induction xs arbitrary: w) (auto simp: call_sprite call_frame)

paragraph \<open>One tick of the clock\<close>

lemma valid_ref_clock_update: "valid_ref r (w\<lparr>clock := c\<rparr>) = valid_ref r w"
  by (cases r) simp_all

lemma obj_at_clock_update: "obj_at r (w\<lparr>clock := c\<rparr>) = obj_at r w"
  by (cases r) simp_all

lemma tick_clock:
  "clock_time (clock (tick dt w)) = clock_time (clock w) + dt"
  "clock_items (clock (tick dt w))
     = filter (\<lambda>item. \<not> is_due (clock_time (clock w) + dt) item) (clock_items (clock w))"
  by (simp_all add: tick_def Let_def fold_call_frame)

lemma tick_frame:
  "length (bullets (tick dt w)) = length (bullets w)"
  "key_handler (player (tick dt w)) = key_handler (player w)"
  "valid_ref r (tick dt w) = valid_ref r w"
  by (simp_all add: tick_def Let_def fold_call_frame valid_ref_clock_update)

lemma tick_cooldown:
  "cooldown (player (tick dt w))
     = ((\<forall>t. (t, EndCooldown) \<in> set (clock_items (clock w)) \<longrightarrow> \<not> t \<le> clock_time (clock w) + dt)
        \<and> cooldown (player w))"
  by (force simp: tick_def Let_def fold_call_cooldown is_due_def)

lemma tick_destroyed:
  "valid_ref r w \<Longrightarrow>
     destroyed (obj_at r (tick dt w))
       = ((\<exists>t. (t, Destroy r) \<in> set (clock_items (clock w)) \<and> t \<le> clock_time (clock w) + dt)
          \<or> destroyed (obj_at r w))"
  by (force simp: tick_def Let_def fold_call_destroyed is_due_def valid_ref_clock_update
      obj_at_clock_update)

lemma tick_exploded:
  "valid_ref r w \<Longrightarrow> exploded (obj_at r (tick dt w)) = exploded (obj_at r w)"
  by (simp add: tick_def Let_def fold_call_exploded valid_ref_clock_update obj_at_clock_update)

lemma tick_sprite:
  "valid_ref r w \<Longrightarrow> sprite (obj_at r (tick dt w)) = sprite (obj_at r w)"
  by (simp add: tick_def Let_def fold_call_sprite valid_ref_clock_update obj_at_clock_update)

paragraph \<open>Player.update in the game state\<close>

lemma Player_update_clock:
  "clock_time (clock (Player_update A dt w)) = clock_time (clock w)"
  "clock_items (clock (Player_update A dt w))
     = clock_items (clock w)
       @ (if key_handler (player w) fire_key \<and> \<not> cooldown (player w)
          then [(clock_time (clock w) + Player_cooldown_time, EndCooldown)] else [])"
  by (simp_all add: Player_update_def Let_def fire_simps move_simps schedule_once_simps)

lemma Player_update_player:
  "key_handler (player (Player_update A dt w)) = key_handler (player w)"
  "cooldown (player (Player_update A dt w))
     = (key_handler (player w) fire_key \<or> cooldown (player w))"
  "exploded (player (Player_update A dt w)) = exploded (player w)"
  "destroyed (player (Player_update A dt w)) = destroyed (player w)"
  "sprite_image (sprite (player (Player_update A dt w))) = sprite_image (sprite (player w))"
  "sprite_scale (sprite (player (Player_update A dt w))) = sprite_scale (sprite (player w))"
  by (auto simp: Player_update_def Let_def fire_simps move_simps)

lemma Player_update_bullets:
  "\<exists>bs. bullets (Player_update A dt w) = bullets w @ bs
     \<and> length bs = (if key_handler (player w) fire_key \<and> \<not> cooldown (player w) then 1 else 0)"
  by (simp add: Player_update_def Let_def fire_simps move_simps)

lemma Player_update_length:
  "length (bullets (Player_update A dt w))
     = length (bullets w)
       + (if key_handler (player w) fire_key \<and> \<not> cooldown (player w) then 1 else 0)"
  using Player_update_bullets [of A dt w] by auto

lemma Player_update_valid_ref:
  "valid_ref r w \<Longrightarrow> valid_ref r (Player_update A dt w)"
  by (cases r) (simp_all add: Player_update_length)

lemma Player_update_obj:
  assumes "valid_ref r w"
  shows "exploded (obj_at r (Player_update A dt w)) = exploded (obj_at r w)"
    and "destroyed (obj_at r (Player_update A dt w)) = destroyed (obj_at r w)"
    and "sprite_image (sprite (obj_at r (Player_update A dt w)))
           = sprite_image (sprite (obj_at r w))"
    and "sprite_scale (sprite (obj_at r (Player_update A dt w)))
           = sprite_scale (sprite (obj_at r w))"
proof -
  obtain bs where bs: "bullets (Player_update A dt w) = bullets w @ bs"
    using Player_update_bullets [of A dt w] by blast
  show "exploded (obj_at r (Player_update A dt w)) = exploded (obj_at r w)"
    using assms bs by (cases r) (simp_all add: as_game_object_simps Player_update_player nth_append)
  show "destroyed (obj_at r (Player_update A dt w)) = destroyed (obj_at r w)"
    using assms bs by (cases r) (simp_all add: as_game_object_simps Player_update_player nth_append)
  show "sprite_image (sprite (obj_at r (Player_update A dt w)))
           = sprite_image (sprite (obj_at r w))"
    using assms bs by (cases r) (simp_all add: as_game_object_simps Player_update_player nth_append)
  show "sprite_scale (sprite (obj_at r (Player_update A dt w)))
           = sprite_scale (sprite (obj_at r w))"
    using assms bs by (cases r) (simp_all add: as_game_object_simps Player_update_player nth_append)
qed

paragraph \<open>explode in the game state\<close>

lemma explode_at_clock:
  "clock_time (clock (explode_at A r w)) = clock_time (clock w)"
  "clock_items (clock (explode_at A r w))
     = clock_items (clock w)
       @ (if valid_ref r w then [(clock_time (clock w) + explosion_time, Destroy r)] else [])"
  by (cases r, simp_all add: Let_def explode_simps schedule_once_simps)+

lemma explode_at_frame:
  "length (bullets (explode_at A r w)) = length (bullets w)"
  "key_handler (player (explode_at A r w)) = key_handler (player w)"
  "cooldown (player (explode_at A r w)) = cooldown (player w)"
  by (cases r, simp_all add: Let_def explode_simps)+

lemma explode_at_valid_ref: "valid_ref r' (explode_at A r w) = valid_ref r' w"
  by (cases r') (simp_all add: explode_at_frame)

lemma explode_at_destroyed:
  "valid_ref r' w \<Longrightarrow> destroyed (obj_at r' (explode_at A r w)) = destroyed (obj_at r' w)"
  by (cases r; cases r')
     (simp_all add: Let_def explode_simps as_game_object_simps nth_list_update)

lemma explode_at_exploded:
  "valid_ref r' w \<Longrightarrow>
     exploded (obj_at r' (explode_at A r w)) = (r' = r \<or> exploded (obj_at r' w))"
  by (cases r; cases r')
     (auto simp add: Let_def explode_simps as_game_object_simps nth_list_update)

lemma explode_at_sprite:
  "valid_ref r' w \<Longrightarrow>
     sprite (obj_at r' (explode_at A r w))
       = (if r' = r
          then Sprite (explosion_image A) (sprite_x (sprite (obj_at r' w)))
                 (sprite_y (sprite (obj_at r' w)))
          else sprite (obj_at r' w))"
  by (cases r; cases r')
     (auto simp add: Let_def explode_simps as_game_object_simps nth_list_update)

paragraph \<open>One event, and runs of events\<close>

lemma draw_at_id: "draw_at r w = w"
  by (cases r) (simp_all add: draw_def)

lemma update_bullet_obj:
  assumes "valid_ref r w" and "i < length (bullets w)"
  shows "destroyed (obj_at r (w\<lparr>bullets := (bullets w)[i := Bullet_update dt (bullets w ! i)]\<rparr>))
           = destroyed (obj_at r w)"
    and "exploded (obj_at r (w\<lparr>bullets := (bullets w)[i := Bullet_update dt (bullets w ! i)]\<rparr>))
           = exploded (obj_at r w)"
    and "sprite_image (sprite (obj_at r
           (w\<lparr>bullets := (bullets w)[i := Bullet_update dt (bullets w ! i)]\<rparr>)))
           = sprite_image (sprite (obj_at r w))"
    and "sprite_scale (sprite (obj_at r
           (w\<lparr>bullets := (bullets w)[i := Bullet_update dt (bullets w ! i)]\<rparr>)))
           = sprite_scale (sprite (obj_at r w))"
  using assms by (cases r, simp_all add: nth_list_update Bullet_update_simps)+

lemma key_state_obj:
  "obj_at r (w\<lparr>player := (player w)\<lparr>key_handler := kh\<rparr>\<rparr>) = obj_at r w"
  by (cases r) (simp_all add: as_game_object_def)

lemma step_valid_ref: "valid_ref r w \<Longrightarrow> valid_ref r (step A e w)"
proof (cases e)
  case (KeyState kh)
  assume "valid_ref r w"
  then show ?thesis using KeyState by (cases r) simp_all
next
  case (UpdateBullet i dt)
  assume "valid_ref r w"
  then show ?thesis using UpdateBullet by (cases r) simp_all
qed (simp_all add: tick_frame Player_update_valid_ref explode_at_valid_ref call_frame
       draw_at_id has_hit_at_snd)

lemma step_time:
  "valid_event e \<Longrightarrow> clock_time (clock w) \<le> clock_time (clock (step A e w))"
  by (cases e)
     (simp_all add: tick_clock Player_update_clock explode_at_clock call_frame
        draw_at_id has_hit_at_snd)

lemma step_destroyed:
  "valid_ref r w \<Longrightarrow> destroyed (obj_at r w) \<Longrightarrow> destroyed (obj_at r (step A e w))"
  by (cases e)
     (simp_all add: tick_destroyed Player_update_obj explode_at_destroyed call_destroyed
        draw_at_id has_hit_at_snd key_state_obj update_bullet_obj)

lemma step_exploded:
  "valid_ref r w \<Longrightarrow> exploded (obj_at r w) \<Longrightarrow> exploded (obj_at r (step A e w))"
  by (cases e)
     (simp_all add: tick_exploded Player_update_obj explode_at_exploded call_exploded
        draw_at_id has_hit_at_snd key_state_obj update_bullet_obj)

lemma run_valid_ref: "valid_ref r w \<Longrightarrow> valid_ref r (run A es w)"
  by (induction es arbitrary: w) (simp_all add: step_valid_ref)

lemma run_destroyed:
  "valid_ref r w \<Longrightarrow> destroyed (obj_at r w) \<Longrightarrow> destroyed (obj_at r (run A es w))"
  by (induction es arbitrary: w) (simp_all add: step_valid_ref step_destroyed)

lemma run_exploded:
  "valid_ref r w \<Longrightarrow> exploded (obj_at r w) \<Longrightarrow> exploded (obj_at r (run A es w))"
  by (induction es arbitrary: w) (simp_all add: step_valid_ref step_exploded)

lemma run_time:
  "list_all valid_event es \<Longrightarrow> clock_time (clock w) \<le> clock_time (clock (run A es w))"
proof (induction es arbitrary: w)
  case Nil
  show ?case by simp
next
  case (Cons e es)
  have "clock_time (clock w) \<le> clock_time (clock (step A e w))"
    using Cons.prems by (simp add: step_time)
  also have "\<dots> \<le> clock_time (clock (run A es (step A e w)))"
    using Cons.prems by (intro Cons.IH) simp
  finally show ?case by simp
qed


subsection \<open>The flags only ever rise\<close>

lemma call_Destroy_idem: "call (Destroy r) (call (Destroy r) w) = call (Destroy r) w"
  by (cases r) (simp_all add: destroy_def)

text \<open>
  C8. The flags \<open>exploded\<close> and \<open>destroyed\<close> are monotone: once one is true for an
  object, it is true after every sequence of events of the game (updates, moves, shots,
  ends of cooldown, destroys, explosions, hit tests, draws), and method by method no
  assignment lowers either flag. \<open>destroy()\<close> sets \<open>destroyed\<close> and is idempotent: a
  second call changes nothing, on the object and in the game state.
\<close>

theorem flags_monotone:
  "(valid_ref r w \<and> destroyed (obj_at r w) \<longrightarrow> destroyed (obj_at r (run A es w)))
   \<and> (valid_ref r w \<and> exploded (obj_at r w) \<longrightarrow> exploded (obj_at r (run A es w)))
   \<and> destroyed (destroy obj)
   \<and> destroy (destroy obj) = destroy obj
   \<and> call (Destroy r) (call (Destroy r) w) = call (Destroy r) w
   \<and> exploded (destroy obj) = exploded obj
   \<and> exploded (fst (explode A r (obj, clk)))
   \<and> destroyed (fst (explode A r (obj, clk))) = destroyed obj
   \<and> exploded (move s t p) = exploded p \<and> destroyed (move s t p) = destroyed p
   \<and> exploded (end_cooldown p) = exploded p \<and> destroyed (end_cooldown p) = destroyed p
   \<and> exploded (Bullet_update t b) = exploded b \<and> destroyed (Bullet_update t b) = destroyed b
   \<and> exploded (player (Player_update A t w)) = exploded (player w)
   \<and> destroyed (player (Player_update A t w)) = destroyed (player w)
   \<and> player (fire A w) = player w
   \<and> take (length (bullets w)) (bullets (fire A w)) = bullets w
   \<and> draw obj = obj
   \<and> snd (has_hit_at r r' w) = w"
  using run_destroyed [of r w A es] run_exploded [of r w A es]
  by (simp add: destroy_simps call_Destroy_idem explode_simps move_simps end_cooldown_simps
      Bullet_update_simps Player_update_player fire_simps draw_def has_hit_at_snd)
    (simp add: destroy_def)

text \<open>A player that is exploded and destroyed remains so through eight events of every kind.\<close>

theorem flags_monotone_witness:
  "valid_ref PlayerRef ((init_world example_assets)
      \<lparr>player := (Player_init example_assets)\<lparr>exploded := True, destroyed := True\<rparr>\<rparr>)
   \<and> destroyed (obj_at PlayerRef ((init_world example_assets)
      \<lparr>player := (Player_init example_assets)\<lparr>exploded := True, destroyed := True\<rparr>\<rparr>))
   \<and> exploded (obj_at PlayerRef ((init_world example_assets)
      \<lparr>player := (Player_init example_assets)\<lparr>exploded := True, destroyed := True\<rparr>\<rparr>))
   \<and> destroyed (obj_at PlayerRef (run example_assets
        [KeyState (\<lambda>k. True), UpdatePlayer 1, Tick 1, UpdateBullet 0 1, DrawAt PlayerRef,
         HasHit (BulletRef 0) PlayerRef, ExplodeAt PlayerRef, DestroyAt PlayerRef]
        ((init_world example_assets)
          \<lparr>player := (Player_init example_assets)\<lparr>exploded := True, destroyed := True\<rparr>\<rparr>)))
   \<and> exploded (obj_at PlayerRef (run example_assets
        [KeyState (\<lambda>k. True), UpdatePlayer 1, Tick 1, UpdateBullet 0 1, DrawAt PlayerRef,
         HasHit (BulletRef 0) PlayerRef, ExplodeAt PlayerRef, DestroyAt PlayerRef]
        ((init_world example_assets)
          \<lparr>player := (Player_init example_assets)\<lparr>exploded := True, destroyed := True\<rparr>\<rparr>)))"
proof -
  let ?w = "(init_world example_assets)
      \<lparr>player := (Player_init example_assets)\<lparr>exploded := True, destroyed := True\<rparr>\<rparr>"
  let ?es = "[KeyState (\<lambda>k. True), UpdatePlayer 1, Tick 1, UpdateBullet 0 1, DrawAt PlayerRef,
         HasHit (BulletRef 0) PlayerRef, ExplodeAt PlayerRef, DestroyAt PlayerRef]"
  have v: "valid_ref PlayerRef ?w"
    by simp
  have d: "destroyed (obj_at PlayerRef ?w)" and e: "exploded (obj_at PlayerRef ?w)"
    by (simp_all add: as_game_object_def)
  have "destroyed (obj_at PlayerRef (run example_assets ?es ?w))"
    using flags_monotone [of PlayerRef ?w example_assets ?es, THEN conjunct1] v d by blast
  moreover have "exploded (obj_at PlayerRef (run example_assets ?es ?w))"
    using flags_monotone [of PlayerRef ?w example_assets ?es, THEN conjunct2, THEN conjunct1] v e
    by blast
  ultimately show ?thesis
    using v d e by blast
qed

subsection \<open>The size of an object\<close>

lemma step_size:
  assumes "valid_ref r w" and "e \<noteq> ExplodeAt r"
  shows "sprite_image (sprite (obj_at r (step A e w))) = sprite_image (sprite (obj_at r w))
       \<and> sprite_scale (sprite (obj_at r (step A e w))) = sprite_scale (sprite (obj_at r w))"
  using assms
  by (cases e)
     (auto simp add: tick_sprite Player_update_obj explode_at_sprite call_sprite
        draw_at_id has_hit_at_snd key_state_obj update_bullet_obj)

lemma run_size:
  "valid_ref r w \<Longrightarrow> ExplodeAt r \<notin> set es \<Longrightarrow>
     sprite_image (sprite (obj_at r (run A es w))) = sprite_image (sprite (obj_at r w))
     \<and> sprite_scale (sprite (obj_at r (run A es w))) = sprite_scale (sprite (obj_at r w))"
proof (induction es arbitrary: w)
  case Nil
  show ?case by simp
next
  case (Cons e es)
  have e: "e \<noteq> ExplodeAt r" and es: "ExplodeAt r \<notin> set es"
    using Cons.prems(2) by auto
  have "valid_ref r (step A e w)"
    using Cons.prems(1) by (rule step_valid_ref)
  from Cons.IH [OF this es] step_size [OF Cons.prems(1) e, of A]
  show ?case by simp
qed

text \<open>
  C6, as the code has it. The size of an object is set at construction to the size of
  its class image times its class scale, and no operation other than \<open>explode()\<close>
  changes the width and height that \<open>has_hit\<close> reads: they are the same after every
  sequence of events in which that object does not explode. \<open>explode()\<close> replaces the
  sprite by a new sprite of the explosion image at the same position. The new sprite has
  the scale 1 of a new sprite (the class scale is not set on it), so the width and
  height are from then on those of the explosion image, for a bullet as for the player.
\<close>

theorem size_fixed_except_explode:
  "(valid_ref r w \<and> ExplodeAt r \<notin> set es \<longrightarrow>
      sprite_width (sprite (obj_at r (run A es w))) = sprite_width (sprite (obj_at r w))
      \<and> sprite_height (sprite (obj_at r (run A es w))) = sprite_height (sprite (obj_at r w)))
   \<and> (valid_ref r w \<longrightarrow>
      sprite_image (sprite (obj_at r (step A (ExplodeAt r) w))) = explosion_image A
      \<and> sprite_scale (sprite (obj_at r (step A (ExplodeAt r) w))) = 1
      \<and> sprite_width (sprite (obj_at r (step A (ExplodeAt r) w)))
          = image_width (explosion_image A)
      \<and> sprite_height (sprite (obj_at r (step A (ExplodeAt r) w)))
          = image_height (explosion_image A)
      \<and> sprite_x (sprite (obj_at r (step A (ExplodeAt r) w))) = sprite_x (sprite (obj_at r w))
      \<and> sprite_y (sprite (obj_at r (step A (ExplodeAt r) w))) = sprite_y (sprite (obj_at r w)))
   \<and> sprite_width (sprite (GameObject_init A c x_pos y_pos))
       = image_width (image_of A c) * scale_of c
   \<and> sprite_height (sprite (GameObject_init A c x_pos y_pos))
       = image_height (image_of A c) * scale_of c
   \<and> sprite_width (sprite (destroy obj)) = sprite_width (sprite obj)
   \<and> sprite_height (sprite (destroy obj)) = sprite_height (sprite obj)
   \<and> sprite_width (sprite (move s t p)) = sprite_width (sprite p)
   \<and> sprite_height (sprite (move s t p)) = sprite_height (sprite p)
   \<and> sprite_width (sprite (Bullet_update t b)) = sprite_width (sprite b)
   \<and> sprite_height (sprite (Bullet_update t b)) = sprite_height (sprite b)"
  using run_size [of r w es A]
  by (simp add: sprite_width_def sprite_height_def explode_at_sprite Sprite_def
      GameObject_init_def destroy_simps move_simps Bullet_update_simps
      del: explode_at.simps)

text \<open>
  A player of width 40 keeps that width through an update, a tick and a destroy; after
  \<open>explode()\<close> its sprite shows the explosion image and is 64 wide. The bullet it fires
  is 2 wide (its image of 10 pixels at the scale 0.2) and 64 wide after \<open>explode()\<close>:
  the explosion is not scaled down with the bullet.
\<close>

theorem size_fixed_except_explode_witness:
  "valid_ref PlayerRef (init_world example_assets)
   \<and> ExplodeAt PlayerRef \<notin> set [KeyState (\<lambda>k. True), UpdatePlayer 1, Tick 1, DestroyAt PlayerRef]
   \<and> sprite_width (sprite (obj_at PlayerRef (init_world example_assets))) = 40
   \<and> sprite_width (sprite (obj_at PlayerRef (run example_assets
        [KeyState (\<lambda>k. True), UpdatePlayer 1, Tick 1, DestroyAt PlayerRef]
        (init_world example_assets)))) = 40
   \<and> sprite_image (sprite (obj_at PlayerRef
        (step example_assets (ExplodeAt PlayerRef) (init_world example_assets))))
       = \<lparr>image_width = 64, image_height = 64\<rparr>
   \<and> sprite_width (sprite (obj_at PlayerRef
        (step example_assets (ExplodeAt PlayerRef) (init_world example_assets)))) = 64
   \<and> valid_ref (BulletRef 0) (fire example_assets (init_world example_assets))
   \<and> sprite_width (sprite (obj_at (BulletRef 0)
        (fire example_assets (init_world example_assets)))) = 2
   \<and> sprite_width (sprite (obj_at (BulletRef 0)
        (step example_assets (ExplodeAt (BulletRef 0))
          (fire example_assets (init_world example_assets))))) = 64
   \<and> sprite_height (sprite (obj_at (BulletRef 0)
        (step example_assets (ExplodeAt (BulletRef 0))
          (fire example_assets (init_world example_assets))))) = 64"
proof -
  let ?w = "init_world example_assets"
  let ?f = "fire example_assets (init_world example_assets)"
  let ?es = "[KeyState (\<lambda>k. True), UpdatePlayer 1, Tick 1, DestroyAt PlayerRef]"
  have v: "valid_ref PlayerRef ?w"
    by simp
  have es: "ExplodeAt PlayerRef \<notin> set ?es"
    by simp
  have w0: "sprite_width (sprite (obj_at PlayerRef ?w)) = 40"
    by (simp add: init_world_def Player_init_def GameObject_init_def Sprite_def Let_def
        as_game_object_def sprite_width_def example_assets_def)
  have vb: "valid_ref (BulletRef 0) ?f"
    by (simp add: fire_simps init_world_def)
  have b0: "sprite_width (sprite (obj_at (BulletRef 0) ?f)) = 2"
    by (simp add: fire_simps init_world_def Bullet_init_def GameObject_init_def Sprite_def
        sprite_width_def example_assets_def)
  have img: "explosion_image example_assets = \<lparr>image_width = 64, image_height = 64\<rparr>"
    by (simp add: explosion_image_def example_assets_def)
  note a = size_fixed_except_explode [of PlayerRef ?w ?es example_assets]
  note b = size_fixed_except_explode [of "BulletRef 0" ?f "[]" example_assets]
  from a v es have "sprite_width (sprite (obj_at PlayerRef (run example_assets ?es ?w)))
      = sprite_width (sprite (obj_at PlayerRef ?w))"
    by blast
  then have p1: "sprite_width (sprite (obj_at PlayerRef (run example_assets ?es ?w))) = 40"
    by (simp only: w0)
  from a v have "sprite_image (sprite (obj_at PlayerRef
      (step example_assets (ExplodeAt PlayerRef) ?w))) = explosion_image example_assets"
    by blast
  then have p2: "sprite_image (sprite (obj_at PlayerRef
      (step example_assets (ExplodeAt PlayerRef) ?w))) = \<lparr>image_width = 64, image_height = 64\<rparr>"
    by (simp only: img)
  from a v have "sprite_width (sprite (obj_at PlayerRef
      (step example_assets (ExplodeAt PlayerRef) ?w))) = image_width (explosion_image example_assets)"
    by blast
  then have p3: "sprite_width (sprite (obj_at PlayerRef
      (step example_assets (ExplodeAt PlayerRef) ?w))) = 64"
    by (simp only: img image.simps)
  from b vb have "sprite_width (sprite (obj_at (BulletRef 0)
      (step example_assets (ExplodeAt (BulletRef 0)) ?f)))
        = image_width (explosion_image example_assets)"
    and "sprite_height (sprite (obj_at (BulletRef 0)
      (step example_assets (ExplodeAt (BulletRef 0)) ?f)))
        = image_height (explosion_image example_assets)"
    by blast+
  then have b1: "sprite_width (sprite (obj_at (BulletRef 0)
      (step example_assets (ExplodeAt (BulletRef 0)) ?f))) = 64"
    and b2: "sprite_height (sprite (obj_at (BulletRef 0)
      (step example_assets (ExplodeAt (BulletRef 0)) ?f))) = 64"
    by (simp_all only: img image.simps)
  show ?thesis
    using v es w0 p1 p2 p3 vb b0 b1 b2 by blast
qed

text \<open>
  C6 as the spec words it does not hold: with a player image of 40 by 30 and an explosion
  image of 64 by 64, \<open>explode()\<close> changes the width from 40 to 64 and the height from 30
  to 64, and an anchor at (70, 40) that missed the player before the explosion hits it
  afterwards. A bullet of 2 by 10 becomes 64 by 64.
\<close>

theorem explode_changes_size:
  "sprite_width (sprite (obj_at PlayerRef (init_world example_assets))) = 40
   \<and> sprite_width (sprite (obj_at PlayerRef
        (step example_assets (ExplodeAt PlayerRef) (init_world example_assets)))) = 64
   \<and> sprite_height (sprite (obj_at PlayerRef (init_world example_assets))) = 30
   \<and> sprite_height (sprite (obj_at PlayerRef
        (step example_assets (ExplodeAt PlayerRef) (init_world example_assets)))) = 64
   \<and> \<not> has_hit (GameObject_init example_assets Bullet 70 40)
         (obj_at PlayerRef (init_world example_assets))
   \<and> has_hit (GameObject_init example_assets Bullet 70 40)
         (obj_at PlayerRef
            (step example_assets (ExplodeAt PlayerRef) (init_world example_assets)))
   \<and> sprite_width (sprite (obj_at (BulletRef 0)
        (fire example_assets (init_world example_assets)))) = 2
   \<and> sprite_height (sprite (obj_at (BulletRef 0)
        (fire example_assets (init_world example_assets)))) = 10
   \<and> sprite_width (sprite (obj_at (BulletRef 0)
        (step example_assets (ExplodeAt (BulletRef 0))
          (fire example_assets (init_world example_assets))))) = 64
   \<and> sprite_height (sprite (obj_at (BulletRef 0)
        (step example_assets (ExplodeAt (BulletRef 0))
          (fire example_assets (init_world example_assets))))) = 64"
  by (simp add: init_world_def Player_init_def GameObject_init_def Bullet_init_def Sprite_def
      as_game_object_def sprite_width_def sprite_height_def explosion_image_def
      example_assets_def explode_def Let_def has_hit_def fire_def schedule_once_def)

subsection \<open>Cooldown\<close>

lemma init_end_cooldown_unique: "end_cooldown_unique (init_world A)"
  by (simp add: end_cooldown_unique_def init_world_def)

lemma tick_end_cooldown_unique:
  assumes "end_cooldown_unique w"
  shows "end_cooldown_unique (tick dt w)"
  unfolding end_cooldown_unique_def
proof (intro allI impI)
  fix t
  assume t: "(t, EndCooldown) \<in> set (clock_items (clock (tick dt w)))"
  then have t_old: "(t, EndCooldown) \<in> set (clock_items (clock w))"
    and t_late: "\<not> t \<le> clock_time (clock w) + dt"
    by (simp_all add: tick_clock is_due_def)
  from assms t_old have cd: "cooldown (player w)"
    and uniq: "\<forall>t'. (t', EndCooldown) \<in> set (clock_items (clock w)) \<longrightarrow> t' = t"
    unfolding end_cooldown_unique_def by blast+
  have "cooldown (player (tick dt w))"
    using cd uniq t_late by (auto simp: tick_cooldown)
  moreover have "\<forall>t'. (t', EndCooldown) \<in> set (clock_items (clock (tick dt w))) \<longrightarrow> t' = t"
    using uniq by (simp add: tick_clock)
  ultimately show "cooldown (player (tick dt w))
      \<and> (\<forall>t'. (t', EndCooldown) \<in> set (clock_items (clock (tick dt w))) \<longrightarrow> t' = t)"
    by blast
qed

lemma Player_update_end_cooldown_unique:
  assumes "end_cooldown_unique w"
  shows "end_cooldown_unique (Player_update A dt w)"
proof (cases "key_handler (player w) fire_key \<and> \<not> cooldown (player w)")
  case True
  with assms have "\<forall>t. (t, EndCooldown) \<notin> set (clock_items (clock w))"
    unfolding end_cooldown_unique_def by blast
  with True show ?thesis
    by (simp add: end_cooldown_unique_def Player_update_clock Player_update_player)
next
  case False
  with assms show ?thesis
    by (auto simp add: end_cooldown_unique_def Player_update_clock Player_update_player)
qed

lemma step_end_cooldown_unique:
  assumes "end_cooldown_unique w"
  shows "end_cooldown_unique (step A e w)"
proof (cases e)
  case (Tick dt)
  with assms show ?thesis by (simp add: tick_end_cooldown_unique)
next
  case (UpdatePlayer dt)
  with assms show ?thesis by (simp add: Player_update_end_cooldown_unique)
next
  case (ExplodeAt r)
  with assms show ?thesis
    by (simp add: end_cooldown_unique_def explode_at_clock explode_at_frame)
next
  case (DestroyAt r)
  with assms show ?thesis
    by (simp add: end_cooldown_unique_def call_frame call_cooldown)
qed (use assms in \<open>simp_all add: end_cooldown_unique_def draw_at_id has_hit_at_snd\<close>)

lemma run_end_cooldown_unique:
  "end_cooldown_unique w \<Longrightarrow> end_cooldown_unique (run A es w)"
  by (induction es arbitrary: w) (simp_all add: step_end_cooldown_unique)

lemma step_cooling_until:
  assumes "cooling_until D n w" and "valid_event e"
  shows "cooling_until D n (step A e w)"
proof (cases e)
  case (Tick dt)
  with assms(2) have dt: "0 \<le> dt" by simp
  show ?thesis
    unfolding cooling_until_def
  proof (intro impI)
    assume "clock_time (clock (step A e w)) < D"
    then have late: "clock_time (clock w) + dt < D"
      using Tick by (simp add: tick_clock)
    with dt have "clock_time (clock w) < D" by simp
    with assms(1) have cd: "cooldown (player w)" and len: "length (bullets w) = n"
      and due: "\<forall>t. (t, EndCooldown) \<in> set (clock_items (clock w)) \<longrightarrow> D \<le> t"
      unfolding cooling_until_def by blast+
    have "cooldown (player (tick dt w))"
      using cd due late by (fastforce simp: tick_cooldown)
    moreover have "length (bullets (tick dt w)) = n"
      using len by (simp add: tick_frame)
    moreover have "\<forall>t. (t, EndCooldown) \<in> set (clock_items (clock (tick dt w))) \<longrightarrow> D \<le> t"
      using due by (simp add: tick_clock)
    ultimately show "cooldown (player (step A e w)) \<and> length (bullets (step A e w)) = n
        \<and> (\<forall>t. (t, EndCooldown) \<in> set (clock_items (clock (step A e w))) \<longrightarrow> D \<le> t)"
      using Tick by simp
  qed
next
  case (UpdatePlayer dt)
  with assms(1) show ?thesis
    by (auto simp add: cooling_until_def Player_update_clock Player_update_player
        Player_update_length)
next
  case (ExplodeAt r)
  with assms(1) show ?thesis
    by (simp add: cooling_until_def explode_at_clock explode_at_frame)
next
  case (DestroyAt r)
  with assms(1) show ?thesis
    by (simp add: cooling_until_def call_frame call_cooldown)
qed (use assms(1) in \<open>simp_all add: cooling_until_def draw_at_id has_hit_at_snd\<close>)

lemma run_cooling_until:
  "cooling_until D n w \<Longrightarrow> list_all valid_event es \<Longrightarrow> cooling_until D n (run A es w)"
  by (induction es arbitrary: w) (simp_all add: step_cooling_until)

lemma step_cooldown_reset:
  assumes "cooldown (player w)" and "\<not> cooldown (player (step A e w))"
  shows "\<exists>dt t. e = Tick dt \<and> (t, EndCooldown) \<in> set (clock_items (clock w))
           \<and> t \<le> clock_time (clock w) + dt"
  using assms
  by (cases e)
     (auto simp add: tick_cooldown Player_update_player explode_at_frame call_cooldown
        draw_at_id has_hit_at_snd split: if_splits)

text \<open>
  C2. In any state the game reaches from its start in which the fire key is held and
  the player is not cooling down, \<open>Player.update\<close> produces exactly one bullet, sets
  \<open>cooldown\<close> and schedules \<open>end_cooldown\<close> for \<open>T + cooldown_time\<close>, where \<open>T\<close> is the
  simulated time of that update and \<open>cooldown_time\<close> is 0.5. Whatever happens next, and
  however many updates run with the fire key held, at every simulated time before
  \<open>T + cooldown_time\<close> no second bullet exists and the player is still cooling down.
  \<open>end_cooldown\<close> clears the flag, and the only event that turns \<open>cooldown\<close> from true to
  false is a tick of the clock in which a scheduled \<open>end_cooldown\<close> is due.
\<close>

theorem cooldown_gating:
  assumes "key_handler (player (run A es0 (init_world A))) fire_key"
    and "\<not> cooldown (player (run A es0 (init_world A)))"
    and "list_all valid_event es"
  shows "length (bullets (Player_update A dt (run A es0 (init_world A))))
           = length (bullets (run A es0 (init_world A))) + 1
    \<and> cooldown (player (Player_update A dt (run A es0 (init_world A))))
    \<and> clock_items (clock (Player_update A dt (run A es0 (init_world A))))
        = clock_items (clock (run A es0 (init_world A)))
          @ [(clock_time (clock (run A es0 (init_world A))) + Player_cooldown_time, EndCooldown)]
    \<and> (clock_time (clock (run A es (Player_update A dt (run A es0 (init_world A)))))
          < clock_time (clock (run A es0 (init_world A))) + Player_cooldown_time
        \<longrightarrow> length (bullets (run A es (Player_update A dt (run A es0 (init_world A)))))
              = length (bullets (run A es0 (init_world A))) + 1
            \<and> cooldown (player (run A es (Player_update A dt (run A es0 (init_world A))))))
    \<and> Player_cooldown_time = 0.5
    \<and> \<not> cooldown (end_cooldown p)
    \<and> (cooldown (player w) \<and> \<not> cooldown (player (step A e w)) \<longrightarrow>
         (\<exists>d t. e = Tick d \<and> (t, EndCooldown) \<in> set (clock_items (clock w))
            \<and> t \<le> clock_time (clock w) + d))"
proof -
  let ?w0 = "run A es0 (init_world A)"
  let ?w1 = "Player_update A dt ?w0"
  let ?D = "clock_time (clock ?w0) + Player_cooldown_time"
  have uniq: "end_cooldown_unique ?w0"
    by (rule run_end_cooldown_unique) (rule init_end_cooldown_unique)
  with assms(2) have none: "\<forall>t. (t, EndCooldown) \<notin> set (clock_items (clock ?w0))"
    unfolding end_cooldown_unique_def by blast
  have len: "length (bullets ?w1) = length (bullets ?w0) + 1"
    using assms(1,2) by (simp add: Player_update_length)
  have cd: "cooldown (player ?w1)"
    using assms(1) by (simp add: Player_update_player)
  have items: "clock_items (clock ?w1) = clock_items (clock ?w0) @ [(?D, EndCooldown)]"
    using assms(1,2) by (simp add: Player_update_clock)
  have "cooling_until ?D (length (bullets ?w0) + 1) ?w1"
    unfolding cooling_until_def using len cd items none by auto
  then have "cooling_until ?D (length (bullets ?w0) + 1) (run A es ?w1)"
    using assms(3) by (rule run_cooling_until)
  then have later: "clock_time (clock (run A es ?w1)) < ?D \<longrightarrow>
      length (bullets (run A es ?w1)) = length (bullets ?w0) + 1
      \<and> cooldown (player (run A es ?w1))"
    unfolding cooling_until_def by blast
  have reset: "cooldown (player w) \<and> \<not> cooldown (player (step A e w)) \<longrightarrow>
         (\<exists>d t. e = Tick d \<and> (t, EndCooldown) \<in> set (clock_items (clock w))
            \<and> t \<le> clock_time (clock w) + d)"
    using step_cooldown_reset [of w A e] by blast
  have "Player_cooldown_time = 0.5" "\<not> cooldown (end_cooldown p)"
    by (simp_all add: Player_cooldown_time_def end_cooldown_simps)
  with len cd items later reset show ?thesis
    by blast
qed

text \<open>
  The fire key goes down at time 0 and the player fires. Updates at times 0.1 and 0.4
  with the key still held add no bullet: one bullet exists at time 0.4.
\<close>

theorem cooldown_gating_witness:
  "key_handler (player (run example_assets [KeyState (\<lambda>k. k = SPACE)]
      (init_world example_assets))) fire_key
   \<and> \<not> cooldown (player (run example_assets [KeyState (\<lambda>k. k = SPACE)]
      (init_world example_assets)))
   \<and> list_all valid_event [Tick 0.1, UpdatePlayer 0.1, Tick 0.3, UpdatePlayer 0.3]
   \<and> clock_time (clock (run example_assets [KeyState (\<lambda>k. k = SPACE)]
        (init_world example_assets))) = 0
   \<and> length (bullets (run example_assets [KeyState (\<lambda>k. k = SPACE)]
        (init_world example_assets))) = 0
   \<and> clock_time (clock (run example_assets [Tick 0.1, UpdatePlayer 0.1, Tick 0.3, UpdatePlayer 0.3]
        (Player_update example_assets 0.1
          (run example_assets [KeyState (\<lambda>k. k = SPACE)] (init_world example_assets))))) = 0.4
   \<and> length (bullets (run example_assets [Tick 0.1, UpdatePlayer 0.1, Tick 0.3, UpdatePlayer 0.3]
        (Player_update example_assets 0.1
          (run example_assets [KeyState (\<lambda>k. k = SPACE)] (init_world example_assets))))) = 1
   \<and> cooldown (player (run example_assets [Tick 0.1, UpdatePlayer 0.1, Tick 0.3, UpdatePlayer 0.3]
        (Player_update example_assets 0.1
          (run example_assets [KeyState (\<lambda>k. k = SPACE)] (init_world example_assets)))))"
proof -
  let ?w0 = "run example_assets [KeyState (\<lambda>k. k = SPACE)] (init_world example_assets)"
  let ?es = "[Tick 0.1, UpdatePlayer 0.1, Tick 0.3, UpdatePlayer 0.3]"
  let ?w1 = "Player_update example_assets 0.1 ?w0"
  have key: "key_handler (player ?w0) fire_key"
    by (simp add: fire_key_def)
  have ready: "\<not> cooldown (player ?w0)"
    by (simp add: init_world_def Player_init_def Let_def)
  have valid: "list_all valid_event ?es"
    by simp
  have t0: "clock_time (clock ?w0) = 0" and n0: "length (bullets ?w0) = 0"
    by (simp_all add: init_world_def)
  have t1: "clock_time (clock (run example_assets ?es ?w1)) = 0.4"
    by (simp add: tick_clock Player_update_clock init_world_def)
  have "clock_time (clock (run example_assets ?es ?w1))
          < clock_time (clock ?w0) + Player_cooldown_time"
    unfolding t0 t1 by (simp add: Player_cooldown_time_def)
  with cooldown_gating [OF key ready valid, where dt = "0.1"]
  have "length (bullets (run example_assets ?es ?w1)) = length (bullets ?w0) + 1
      \<and> cooldown (player (run example_assets ?es ?w1))"
    by blast
  with key ready valid t0 n0 t1 show ?thesis
    by simp
qed

subsection \<open>Explosion\<close>

lemma tick_exploding_until:
  assumes inv: "exploding_until r D w" and dt: "0 \<le> dt"
  shows "exploding_until r D (tick dt w)"
proof -
  from inv have v: "valid_ref r w" and lo: "D - explosion_time \<le> clock_time (clock w)"
    unfolding exploding_until_def by blast+
  have early: "\<not> destroyed (obj_at r (tick dt w))
      \<and> (D, Destroy r) \<in> set (clock_items (clock (tick dt w)))
      \<and> (\<forall>t. (t, Destroy r) \<in> set (clock_items (clock (tick dt w))) \<longrightarrow> D \<le> t)"
    if now': "clock_time (clock w) + dt < D"
  proof -
    from now' dt have "clock_time (clock w) < D" by simp
    with inv have nd: "\<not> destroyed (obj_at r w)"
      and pend: "(D, Destroy r) \<in> set (clock_items (clock w))"
      and due: "\<forall>t. (t, Destroy r) \<in> set (clock_items (clock w)) \<longrightarrow> D \<le> t"
      unfolding exploding_until_def by blast+
    have "\<not> destroyed (obj_at r (tick dt w))"
      using v nd due now' by (fastforce simp: tick_destroyed)
    moreover have "(D, Destroy r) \<in> set (clock_items (clock (tick dt w)))"
      using pend now' by (simp add: tick_clock is_due_def)
    moreover have "\<forall>t. (t, Destroy r) \<in> set (clock_items (clock (tick dt w))) \<longrightarrow> D \<le> t"
      using due by (simp add: tick_clock)
    ultimately show ?thesis by blast
  qed
  have late: "destroyed (obj_at r (tick dt w))" if now': "D \<le> clock_time (clock w) + dt"
  proof (cases "clock_time (clock w) < D")
    case True
    with inv have "(D, Destroy r) \<in> set (clock_items (clock w))"
      unfolding exploding_until_def by blast
    with now' v show ?thesis
      by (auto simp: tick_destroyed)
  next
    case False
    with inv have "destroyed (obj_at r w)"
      unfolding exploding_until_def by simp
    with v show ?thesis
      by (simp add: tick_destroyed)
  qed
  show ?thesis
    unfolding exploding_until_def
    using v lo dt early late by (simp add: tick_frame tick_clock)
qed

lemma step_exploding_until:
  assumes inv: "exploding_until r D w" and "valid_event e" and "e \<noteq> DestroyAt r"
  shows "exploding_until r D (step A e w)"
proof (cases e)
  case (Tick dt)
  with assms show ?thesis by (simp add: tick_exploding_until)
next
  case (KeyState kh)
  have "valid_ref r (w\<lparr>player := (player w)\<lparr>key_handler := kh\<rparr>\<rparr>) = valid_ref r w"
    by (cases r) simp_all
  with inv KeyState show ?thesis
    by (simp add: exploding_until_def key_state_obj)
next
  case (UpdatePlayer dt)
  from inv have v: "valid_ref r w"
    unfolding exploding_until_def by blast
  with inv UpdatePlayer show ?thesis
    by (simp add: exploding_until_def Player_update_valid_ref Player_update_clock
        Player_update_obj)
next
  case (UpdateBullet i dt)
  from inv have v: "valid_ref r w"
    unfolding exploding_until_def by blast
  have "valid_ref r (w\<lparr>bullets := (bullets w)[i := Bullet_update dt (bullets w ! i)]\<rparr>)"
    using v by (cases r) simp_all
  with inv v UpdateBullet show ?thesis
    by (simp add: exploding_until_def update_bullet_obj)
next
  case (ExplodeAt r')
  from inv have v: "valid_ref r w"
    unfolding exploding_until_def by blast
  with inv ExplodeAt show ?thesis
    by (auto simp add: exploding_until_def explode_at_valid_ref explode_at_clock
        explode_at_destroyed)
next
  case (DestroyAt r')
  from inv have v: "valid_ref r w"
    unfolding exploding_until_def by blast
  from DestroyAt assms(3) have "r' \<noteq> r" by simp
  with inv v DestroyAt show ?thesis
    by (simp add: exploding_until_def call_frame call_destroyed)
next
  case (DrawAt r')
  with inv show ?thesis by (simp add: draw_at_id)
next
  case (HasHit a b)
  with inv show ?thesis by (simp add: has_hit_at_snd)
qed

lemma run_exploding_until:
  "exploding_until r D w \<Longrightarrow> list_all valid_event es \<Longrightarrow> DestroyAt r \<notin> set es \<Longrightarrow>
     exploding_until r D (run A es w)"
  by (induction es arbitrary: w) (auto simp add: step_exploding_until)

lemma step_items_mono:
  assumes "item \<in> set (clock_items (clock w))" and "\<forall>dt. e \<noteq> Tick dt"
  shows "item \<in> set (clock_items (clock (step A e w)))
       \<and> clock_time (clock (step A e w)) = clock_time (clock w)"
  using assms
  by (cases e)
     (simp_all add: Player_update_clock explode_at_clock call_frame draw_at_id has_hit_at_snd
        del: explode_at.simps)

lemma step_destroy_scheduled:
  assumes inv: "destroy_scheduled r D w"
  shows "destroy_scheduled r D (step A e w)"
proof -
  from inv have v: "valid_ref r w"
    unfolding destroy_scheduled_def by blast
  then have v': "valid_ref r (step A e w)"
    by (rule step_valid_ref)
  show ?thesis
  proof (cases "destroyed (obj_at r w)")
    case True
    with v have "destroyed (obj_at r (step A e w))"
      by (simp add: step_destroyed)
    with v' show ?thesis
      unfolding destroy_scheduled_def by blast
  next
    case False
    with inv have pend: "(D, Destroy r) \<in> set (clock_items (clock w))"
      and early: "clock_time (clock w) < D"
      unfolding destroy_scheduled_def by blast+
    show ?thesis
    proof (cases "\<exists>dt. e = Tick dt")
      case True
      then obtain dt where e: "e = Tick dt" by blast
      show ?thesis
      proof (cases "D \<le> clock_time (clock w) + dt")
        case True
        with pend v have "destroyed (obj_at r (tick dt w))"
          by (auto simp: tick_destroyed)
        with v' e show ?thesis
          unfolding destroy_scheduled_def by simp
      next
        case False
        with pend have "(D, Destroy r) \<in> set (clock_items (clock (tick dt w)))"
          and "clock_time (clock (tick dt w)) < D"
          by (simp_all add: tick_clock is_due_def)
        with v' e show ?thesis
          unfolding destroy_scheduled_def by simp
      qed
    next
      case False
      then have "\<forall>dt. e \<noteq> Tick dt" by blast
      from step_items_mono [OF pend this, of A] early v' show ?thesis
        unfolding destroy_scheduled_def by simp
    qed
  qed
qed

lemma run_destroy_scheduled:
  "destroy_scheduled r D w \<Longrightarrow> destroy_scheduled r D (run A es w)"
  by (induction es arbitrary: w) (simp_all add: step_destroy_scheduled)

text \<open>
  C3, as the code has it. For every object, \<open>explode()\<close> at simulated time \<open>T\<close> sets
  \<open>exploded\<close> at once, leaves \<open>destroyed\<close> as it is and schedules \<open>destroy\<close> for
  \<open>T + explosion_time\<close>, with \<open>explosion_time\<close> 0.2; after any further events
  \<open>destroyed\<close> is true whenever the simulated time is \<open>T + explosion_time\<close> or later.
  If moreover the object is not destroyed at \<open>T\<close>, has no \<open>destroy\<close> callback pending
  that is due before \<open>T + explosion_time\<close> (it has not exploded earlier), and \<open>destroy()\<close>
  is not called on it directly afterwards, then \<open>destroyed\<close> is false whenever the
  simulated time is before \<open>T + explosion_time\<close>.
\<close>

theorem explode_destroys_after_delay:
  assumes "valid_ref r w"
  shows "exploded (obj_at r (step A (ExplodeAt r) w))
    \<and> destroyed (obj_at r (step A (ExplodeAt r) w)) = destroyed (obj_at r w)
    \<and> clock_items (clock (step A (ExplodeAt r) w))
        = clock_items (clock w) @ [(clock_time (clock w) + explosion_time, Destroy r)]
    \<and> (clock_time (clock w) + explosion_time
          \<le> clock_time (clock (run A es (step A (ExplodeAt r) w)))
        \<longrightarrow> destroyed (obj_at r (run A es (step A (ExplodeAt r) w))))
    \<and> (\<not> destroyed (obj_at r w)
        \<and> (\<forall>t. (t, Destroy r) \<in> set (clock_items (clock w)) \<longrightarrow>
               clock_time (clock w) + explosion_time \<le> t)
        \<and> list_all valid_event es \<and> DestroyAt r \<notin> set es
        \<and> clock_time (clock (run A es (step A (ExplodeAt r) w)))
             < clock_time (clock w) + explosion_time
        \<longrightarrow> \<not> destroyed (obj_at r (run A es (step A (ExplodeAt r) w))))
    \<and> explosion_time = 0.2"
proof -
  let ?w1 = "step A (ExplodeAt r) w"
  let ?D = "clock_time (clock w) + explosion_time"
  have ex: "exploded (obj_at r ?w1)"
    and d: "destroyed (obj_at r ?w1) = destroyed (obj_at r w)"
    using assms by (simp_all add: explode_at_exploded explode_at_destroyed)
  have items: "clock_items (clock ?w1) = clock_items (clock w) @ [(?D, Destroy r)]"
    and time: "clock_time (clock ?w1) = clock_time (clock w)"
    using assms by (simp_all add: explode_at_clock)
  have v1: "valid_ref r ?w1"
    using assms by (simp add: explode_at_valid_ref)
  have "destroy_scheduled r ?D ?w1"
    unfolding destroy_scheduled_def using v1 items time
    by (simp add: explosion_time_def)
  then have "destroy_scheduled r ?D (run A es ?w1)"
    by (rule run_destroy_scheduled)
  then have late: "?D \<le> clock_time (clock (run A es ?w1)) \<longrightarrow>
      destroyed (obj_at r (run A es ?w1))"
    unfolding destroy_scheduled_def by auto
  have early: "\<not> destroyed (obj_at r (run A es ?w1))"
    if nd: "\<not> destroyed (obj_at r w)"
      and none: "\<forall>t. (t, Destroy r) \<in> set (clock_items (clock w)) \<longrightarrow> ?D \<le> t"
      and es: "list_all valid_event es" "DestroyAt r \<notin> set es"
      and before: "clock_time (clock (run A es ?w1)) < ?D"
  proof -
    have "exploding_until r ?D ?w1"
      unfolding exploding_until_def
      using v1 none nd d items time by (auto simp add: explosion_time_def)
    then have "exploding_until r ?D (run A es ?w1)"
      using es by (rule run_exploding_until)
    with before show ?thesis
      unfolding exploding_until_def by blast
  qed
  have "explosion_time = 0.2"
    by (simp add: explosion_time_def)
  with ex d items late early show ?thesis
    by blast
qed

text \<open>
  A new player explodes at time 0: at time 0.1 it is exploded and not destroyed, at time
  0.2 it is destroyed.
\<close>

theorem explode_destroys_after_delay_witness:
  "valid_ref PlayerRef (init_world example_assets)
   \<and> \<not> destroyed (obj_at PlayerRef (init_world example_assets))
   \<and> clock_items (clock (init_world example_assets)) = []
   \<and> clock_time (clock (init_world example_assets)) = 0
   \<and> list_all valid_event [Tick 0.1, UpdatePlayer 0.1]
   \<and> DestroyAt PlayerRef \<notin> set [Tick 0.1, UpdatePlayer 0.1]
   \<and> exploded (obj_at PlayerRef (step example_assets (ExplodeAt PlayerRef)
        (init_world example_assets)))
   \<and> clock_time (clock (run example_assets [Tick 0.1, UpdatePlayer 0.1]
        (step example_assets (ExplodeAt PlayerRef) (init_world example_assets)))) = 0.1
   \<and> \<not> destroyed (obj_at PlayerRef (run example_assets [Tick 0.1, UpdatePlayer 0.1]
        (step example_assets (ExplodeAt PlayerRef) (init_world example_assets))))
   \<and> clock_time (clock (run example_assets [Tick 0.1, UpdatePlayer 0.1, Tick 0.1]
        (step example_assets (ExplodeAt PlayerRef) (init_world example_assets)))) = 0.2
   \<and> destroyed (obj_at PlayerRef (run example_assets [Tick 0.1, UpdatePlayer 0.1, Tick 0.1]
        (step example_assets (ExplodeAt PlayerRef) (init_world example_assets))))"
proof -
  let ?w = "init_world example_assets"
  let ?w1 = "step example_assets (ExplodeAt PlayerRef) ?w"
  let ?es = "[Tick 0.1, UpdatePlayer 0.1]"
  let ?es' = "[Tick 0.1, UpdatePlayer 0.1, Tick 0.1]"
  have v: "valid_ref PlayerRef ?w" by simp
  have nd: "\<not> destroyed (obj_at PlayerRef ?w)"
    by (simp add: init_world_def Player_init_def GameObject_init_def Let_def
        as_game_object_def)
  have items: "clock_items (clock ?w) = []" and t: "clock_time (clock ?w) = 0"
    by (simp_all add: init_world_def)
  have none: "\<forall>t. (t, Destroy PlayerRef) \<in> set (clock_items (clock ?w)) \<longrightarrow>
      clock_time (clock ?w) + explosion_time \<le> t"
    by (simp add: items)
  have es: "list_all valid_event ?es" "DestroyAt PlayerRef \<notin> set ?es"
    by simp_all
  have t1: "clock_time (clock (run example_assets ?es ?w1)) = 0.1"
    and t2: "clock_time (clock (run example_assets ?es' ?w1)) = 0.2"
    by (simp_all add: tick_clock Player_update_clock explode_at_clock t del: explode_at.simps)
  have before: "clock_time (clock (run example_assets ?es ?w1))
      < clock_time (clock ?w) + explosion_time"
    and after: "clock_time (clock ?w) + explosion_time
      \<le> clock_time (clock (run example_assets ?es' ?w1))"
    unfolding t t1 t2 by (simp_all add: explosion_time_def)
  note a = explode_destroys_after_delay [OF v, of example_assets ?es]
  note b = explode_destroys_after_delay [OF v, of example_assets ?es']
  have "exploded (obj_at PlayerRef ?w1)"
    using a by blast
  moreover have "\<not> destroyed (obj_at PlayerRef (run example_assets ?es ?w1))"
    using a nd none es before by blast
  moreover have "destroyed (obj_at PlayerRef (run example_assets ?es' ?w1))"
    using b after by blast
  ultimately show ?thesis
    using v nd items t es t1 t2 by blast
qed

text \<open>
  C3 as the spec words it, for every object, does not hold: \<open>explode()\<close> is not guarded.
  A player that exploded at time 0 and explodes again at time \<open>T = 0.1\<close> is destroyed at
  time 0.2, which is before \<open>T + explosion_time = 0.3\<close>: the callback of the first
  explosion fires.
\<close>

theorem second_explode_destroyed_early:
  "\<not> destroyed (obj_at PlayerRef
       (run example_assets [ExplodeAt PlayerRef, Tick 0.1] (init_world example_assets)))
   \<and> clock_time (clock
       (run example_assets [ExplodeAt PlayerRef, Tick 0.1] (init_world example_assets))) = 0.1
   \<and> clock_time (clock (run example_assets [Tick 0.1] (step example_assets (ExplodeAt PlayerRef)
       (run example_assets [ExplodeAt PlayerRef, Tick 0.1] (init_world example_assets))))) = 0.2
   \<and> (0.2 :: real) < 0.1 + explosion_time
   \<and> destroyed (obj_at PlayerRef (run example_assets [Tick 0.1]
       (step example_assets (ExplodeAt PlayerRef)
         (run example_assets [ExplodeAt PlayerRef, Tick 0.1] (init_world example_assets)))))"
  by (simp add: tick_def is_due_def explode_def schedule_once_def destroy_def Let_def
      init_world_def Player_init_def GameObject_init_def as_game_object_def
      explosion_time_def)

end
